theory Spec2Isabelle
  imports Main
begin

section \<open>Data model\<close>

text \<open>
  The two language servers (\<open>SmsLanguageServer\<close> and \<open>TrigLanguageServer\<close>) work on
  lexer tokens, documents of the editor protocol, and the parse state kept per
  document URI. Offsets are JavaScript numbers that hold integers; they are
  modelled as \<open>int\<close>, so that \<open>cursorOffset - 1\<close> can be negative as in the source.
\<close>

type_synonym uri = string

record token_type =
  tokenName :: string

record token =
  tokenType :: token_type
  startOffset :: int
  endOffset :: int
  image_tok :: string

record position =
  line :: int
  character :: int

text \<open>
  A \<open>TextDocument\<close> of the protocol library: the server only reads its URI and text
  and calls its two coordinate conversions, which are taken as they are given.
\<close>

record document =
  uri :: uri
  getText :: string
  offsetAt :: "position \<Rightarrow> int"
  positionAt :: "int \<Rightarrow> position"

record text_document_identifier =
  td_uri :: uri

record text_document_position_params =
  textDocument :: text_document_identifier
  position_of :: position

record range =
  range_start :: position
  range_end :: position

record text_edit =
  edit_range :: range
  newText :: string

datatype completion_item_kind =
  KindText | KindMethod | KindFunction | KindConstructor | KindField | KindVariable
  | KindClass | KindInterface | KindModule | KindProperty | KindUnit | KindValue
  | KindEnum | KindKeyword | KindSnippet | KindColor | KindFile | KindReference
  | KindFolder | KindEnumMember | KindConstant | KindStruct | KindEvent | KindOperator
  | KindTypeParameter

datatype insert_text_format = PlainText | Snippet

record completion_item =
  label :: string
  kind :: completion_item_kind
  detail :: string
  documentation :: string
  insertTextFormat :: insert_text_format
  textEdit :: text_edit

record diagnostic =
  diag_range :: range
  severity :: nat
  message :: string

text \<open>A candidate returned by the parser's content-assist query.\<close>

record candidate =
  nextTokenType :: token_type
  ruleStack :: "string list"

text \<open>
  What \<open>parseDocument\<close> returns: the syntax tree \<open>'c\<close>, the tokens, the errors \<open>'e\<close>
  and the remaining fields \<open>'o\<close> of the parser's result.
\<close>

record ('c, 'e, 'o) parse_results =
  cst :: 'c
  tokens :: "token list"
  errors :: "'e list"
  otherParseData :: 'o

text \<open>
  What the parser's \<open>parse\<close> leaves behind: its returned object (\<open>cst\<close>, \<open>errors\<close> and
  the rest) and the token vector readable afterwards as \<open>parser.input\<close>.
\<close>

record ('c, 'e, 'o) parser_output =
  out_cst :: 'c
  out_errors :: "'e list"
  out_rest :: 'o
  out_input :: "token list"

text \<open>A cached parse state; either field may be missing (\<open>Partial<ParseState>\<close>).\<close>

record 'c parse_state =
  ps_cst :: "'c option"
  ps_tokens :: "token list option"

text \<open>
  The collaborators that are not part of the two servers: the parser (its \<open>parse\<close>,
  called with the text and, by the TriG server only, a mode, and its
  \<open>computeContentAssist\<close>), the two diagnostics passes of the base class, and the
  snippet text \<open>sms2Snippets.basicSMS2Mapping\<close>.
\<close>

record ('c, 'e, 'o) adapter =
  parse :: "string \<Rightarrow> string option \<Rightarrow> ('c, 'e, 'o) parser_output"
  computeContentAssist :: "string \<Rightarrow> token list \<Rightarrow> candidate list"
  getLexDiagnostics :: "document \<Rightarrow> token list \<Rightarrow> diagnostic list"
  getParseDiagnostics :: "document \<Rightarrow> 'e list \<Rightarrow> diagnostic list"
  basicSMS2Mapping :: string

text \<open>
  Calls that leave the server object, in the order they are made: to the parser, to
  the diagnostics passes and to the connection.
\<close>

datatype 'e call =
  ParserParse string "string option"
  | ComputeContentAssist string "token list"
  | GetLexDiagnostics document "token list"
  | GetParseDiagnostics document "'e list"
  | SendDiagnostics uri "diagnostic list"

text \<open>
  The state of a server object: the open documents (\<open>this.documents\<close>), the parse
  state manager's table and the calls made so far. The TriG server adds its mode.
\<close>

record ('c, 'e) server =
  documents :: "uri \<rightharpoonup> document"
  parseStates :: "uri \<rightharpoonup> 'c parse_state"
  calls :: "'e call list"

record ('c, 'e) trig_server = "('c, 'e) server" +
  mode :: string

datatype js_error = TypeError

section \<open>Parse state manager\<close>

text \<open>
  Modelled from the spec: the parse state manager of \<open>stardog-language-utils\<close> is not
  among the sources. It keeps at most one parse state per URI; a lookup for a URI
  without an entry yields a state without tokens and tree (\<open>handleCompletion\<close>
  destructures the result and tests \<open>!tokens\<close>), and saving overwrites the entry.
\<close>

definition getParseStateForUri ::
  "uri \<Rightarrow> ('c, 'e, 'z) server_scheme \<Rightarrow> 'c parse_state" where
  "getParseStateForUri u st =
     (case parseStates st u of
        None \<Rightarrow> \<lparr>ps_cst = None, ps_tokens = None\<rparr>
      | Some s \<Rightarrow> s)"

definition saveParseStateForUri ::
  "uri \<Rightarrow> 'c parse_state \<Rightarrow> ('c, 'e, 'z) server_scheme \<Rightarrow> ('c, 'e, 'z) server_scheme" where
  "saveParseStateForUri u s st = st\<lparr>parseStates := (parseStates st)(u \<mapsto> s)\<rparr>"

section \<open>Parsing a document\<close>

text \<open>
  Modelled from the spec: \<open>parseDocument\<close> of the base class is not among the
  sources. It is the TriG server's override without the mode: one call of the
  parser's \<open>parse\<close> on the document text, the tokens read from \<open>parser.input\<close>.
\<close>

definition parseDocument ::
  "('c, 'e, 'o) adapter \<Rightarrow> document \<Rightarrow> ('c, 'e, 'z) server_scheme
     \<Rightarrow> ('c, 'e, 'o) parse_results \<times> ('c, 'e, 'z) server_scheme" where
  "parseDocument env doc st =
     (let content = getText doc;
          r = parse env content None
      in (\<lparr>cst = out_cst r, tokens = out_input r, errors = out_errors r,
            otherParseData = out_rest r\<rparr>,
          st\<lparr>calls := calls st @ [ParserParse content None]\<rparr>))"

text \<open>\<open>TrigLanguageServer.parseDocument\<close>: the override that passes \<open>this.mode\<close>.\<close>

definition trig_parseDocument ::
  "('c, 'e, 'o) adapter \<Rightarrow> document \<Rightarrow> ('c, 'e, 'z) trig_server_scheme
     \<Rightarrow> ('c, 'e, 'o) parse_results \<times> ('c, 'e, 'z) trig_server_scheme" where
  "trig_parseDocument env doc st =
     (let content = getText doc;
          r = parse env content (Some (mode st))
      in (\<lparr>cst = out_cst r, tokens = out_input r, errors = out_errors r,
            otherParseData = out_rest r\<rparr>,
          st\<lparr>calls := calls st @ [ParserParse content (Some (mode st))]\<rparr>))"

section \<open>Diagnostics on a content change\<close>

text \<open>\<open>connection.sendDiagnostics\<close>: the batch leaves the server.\<close>

definition sendDiagnostics ::
  "uri \<Rightarrow> diagnostic list \<Rightarrow> ('c, 'e, 'z) server_scheme \<Rightarrow> ('c, 'e, 'z) server_scheme" where
  "sendDiagnostics u ds st = st\<lparr>calls := calls st @ [SendDiagnostics u ds]\<rparr>"

text \<open>
  \<open>onContentChange\<close>, the same in both servers but for the place where the parse
  results are taken apart: an empty text sends an empty batch and returns; otherwise
  the lexical pass runs, then the syntactic pass, and one batch is sent.
\<close>

definition onContentChange ::
  "('c, 'e, 'o) adapter \<Rightarrow> document \<Rightarrow> ('c, 'e, 'o) parse_results
     \<Rightarrow> ('c, 'e, 'z) server_scheme \<Rightarrow> ('c, 'e, 'z) server_scheme" where
  "onContentChange env doc parseResults st =
     (let u = uri doc;
          content = getText doc;
          errs = errors parseResults;
          toks = tokens parseResults
      in if length content = 0 then sendDiagnostics u [] st
         else
           let lexDiagnostics = getLexDiagnostics env doc toks;
               st1 = st\<lparr>calls := calls st @ [GetLexDiagnostics doc toks]\<rparr>;
               parseDiagnostics = getParseDiagnostics env doc errs;
               st2 = st1\<lparr>calls := calls st1 @ [GetParseDiagnostics doc errs]\<rparr>
           in sendDiagnostics u (lexDiagnostics @ parseDiagnostics) st2)"

definition trig_onContentChange ::
  "('c, 'e, 'o) adapter \<Rightarrow> document \<Rightarrow> ('c, 'e, 'o) parse_results
     \<Rightarrow> ('c, 'e, 'z) trig_server_scheme \<Rightarrow> ('c, 'e, 'z) trig_server_scheme" where
  "trig_onContentChange env doc parseResults st =
     (let u = uri doc;
          content = getText doc
      in if length content = 0 then sendDiagnostics u [] st
         else
           let toks = tokens parseResults;
               errs = errors parseResults;
               lexDiagnostics = getLexDiagnostics env doc toks;
               st1 = st\<lparr>calls := calls st @ [GetLexDiagnostics doc toks]\<rparr>;
               parseDiagnostics = getParseDiagnostics env doc errs;
               st2 = st1\<lparr>calls := calls st1 @ [GetParseDiagnostics doc errs]\<rparr>
           in sendDiagnostics u (lexDiagnostics @ parseDiagnostics) st2)"

section \<open>Initialization of the TriG server\<close>

text \<open>
  The initialization options arrive as an arbitrary JSON value, or not at all. An
  object is the list of its members, with distinct keys. Numbers are taken as
  integers: what the server does with a number depends only on whether it is zero.
\<close>

datatype json =
  JNull | JBool bool | JNum int | JStr string | JArr "json list"
  | JObj "(string \<times> json) list"

record initialize_params =
  initializationOptions :: "json option"

record server_capabilities =
  textDocumentSync :: "nat option"
  hoverProvider :: bool

text \<open>JavaScript truthiness of a value, as \<open>&&\<close> tests it.\<close>

fun truthy :: "json \<Rightarrow> bool" where
  "truthy JNull = False"
| "truthy (JBool b) = b"
| "truthy (JNum n) = (n \<noteq> 0)"
| "truthy (JStr s) = (s \<noteq> [])"
| "truthy (JArr _) = True"
| "truthy (JObj _) = True"

text \<open>
  The property read \<open>.mode\<close> on a truthy value: an object yields the member if it
  has one, every other value yields \<open>undefined\<close>.
\<close>

fun mode_member :: "json \<Rightarrow> json option" where
  "mode_member (JObj kvs) = map_of kvs ''mode''"
| "mode_member _ = None"

text \<open>The state of a freshly constructed TriG server: \<open>mode = 'standard'\<close>.\<close>

definition trig_new :: "(uri \<rightharpoonup> document) \<Rightarrow> ('c, 'e) trig_server" where
  "trig_new docs =
     \<lparr>documents = docs, parseStates = Map.empty, calls = [], mode = ''standard''\<rparr>"

text \<open>
  \<open>TrigLanguageServer.onInitialization\<close>; \<open>sync\<close> stands for
  \<open>this.documents.syncKind[0]\<close>, which the base class provides.
\<close>

definition trig_onInitialization ::
  "nat option \<Rightarrow> initialize_params \<Rightarrow> ('c, 'e, 'z) trig_server_scheme
     \<Rightarrow> server_capabilities \<times> ('c, 'e, 'z) trig_server_scheme" where
  "trig_onInitialization sync params st =
     (let st' =
        (case initializationOptions params of
           None \<Rightarrow> st
         | Some opts \<Rightarrow>
             if truthy opts \<and>
                (mode_member opts = Some (JStr ''stardog'') \<or>
                 mode_member opts = Some (JStr ''standard''))
             then (case mode_member opts of
                     Some (JStr m) \<Rightarrow> st\<lparr>mode := m\<rparr>
                   | _ \<Rightarrow> st)
             else st)
      in (\<lparr>textDocumentSync = sync, hoverProvider = True\<rparr>, st'))"

section \<open>Completion in the SMS server\<close>

text \<open>
  The backward loop of \<open>handleCompletion\<close>: \<open>index\<close> runs from the last token down
  to the first and stops at the first token that ends more than one character
  before the cursor; \<open>-1\<close> is what remains when no token does.
\<close>

function scanBack :: "token list \<Rightarrow> int \<Rightarrow> int \<Rightarrow> int" where
  "scanBack toks cursorOffset index =
     (if index > -1 then
        (if endOffset (toks ! nat index) + 1 < cursorOffset then index
         else scanBack toks cursorOffset (index - 1))
      else -1)"
  by pat_completeness auto
termination
  by (relation "measure (\<lambda>(toks, c, i). nat (i + 1))") auto

declare scanBack.simps [simp del]

definition tokenIndexBeforeCursor :: "token list \<Rightarrow> int \<Rightarrow> int" where
  "tokenIndexBeforeCursor toks cursorOffset =
     scanBack toks cursorOffset (int (length toks) - 1)"

text \<open>\<open>tokens[tokenIndexBeforeCursor + 1]\<close>: \<open>undefined\<close> past the end of the array.\<close>

definition tokenAfterTokenBeforeCursor :: "token list \<Rightarrow> int \<Rightarrow> token option" where
  "tokenAfterTokenBeforeCursor toks cursorOffset =
     (let j = tokenIndexBeforeCursor toks cursorOffset + 1
      in if 0 \<le> j \<and> j < int (length toks) then Some (toks ! nat j) else None)"

definition isCursorInToken :: "token list \<Rightarrow> int \<Rightarrow> bool" where
  "isCursorInToken toks cursorOffset =
     (case tokenAfterTokenBeforeCursor toks cursorOffset of
        None \<Rightarrow> False
      | Some u \<Rightarrow>
          startOffset u \<le> cursorOffset \<and> endOffset u \<ge> cursorOffset \<and>
          startOffset u \<noteq> endOffset u)"

text \<open>The prefix handed to the content-assist query.\<close>

definition tokensBeforeCursor :: "token list \<Rightarrow> int \<Rightarrow> token list" where
  "tokensBeforeCursor toks cursorOffset =
     (let i = tokenIndexBeforeCursor toks cursorOffset
      in if i = -1 then [] else take (nat (i + 1)) toks)"

text \<open>The one completion item the server knows.\<close>

definition basicSMS2MappingItem ::
  "('c, 'e, 'o) adapter \<Rightarrow> document \<Rightarrow> int \<Rightarrow> completion_item" where
  \<open>basicSMS2MappingItem env doc cursorOffset =
     \<lparr>label = ''basicSMS2Mapping'',
      kind = KindEnum,
      detail = ''Create a basic fill-in-the-blanks SMS2 mapping'',
      documentation = ''Inserts a basic mapping in Stardog Mapping Syntax 2 (SMS2) with tabbing functionality and content assistance. For more documentation of SMS2, check out "Help" --> "Stardog Docs".'',
      insertTextFormat = Snippet,
      textEdit =
        \<lparr>edit_range =
           \<lparr>range_start = positionAt doc (cursorOffset - 1),
            range_end = positionAt doc (cursorOffset - 1)\<rparr>,
         newText = basicSMS2Mapping env\<rparr>\<rparr>\<close>

text \<open>
  Lines 76 to 82: the tokens of the cached parse state, or, when it has none, the
  tokens of a fresh parse, which is then saved for the URI.
\<close>

definition tokensForCompletion ::
  "('c, 'e, 'o) adapter \<Rightarrow> document \<Rightarrow> uri \<Rightarrow> ('c, 'e, 'z) server_scheme
     \<Rightarrow> token list \<times> ('c, 'e, 'z) server_scheme" where
  "tokensForCompletion env doc u st =
     (case ps_tokens (getParseStateForUri u st) of
        Some toks \<Rightarrow> (toks, st)
      | None \<Rightarrow>
          (case parseDocument env doc st of
             (r, st1) \<Rightarrow>
               (tokens r,
                saveParseStateForUri u
                  \<lparr>ps_cst = Some (cst r), ps_tokens = Some (tokens r)\<rparr> st1)))"

text \<open>
  \<open>handleCompletion\<close>. The result is \<open>Inl\<close> when the handler throws, \<open>Inr None\<close> when
  it returns \<open>undefined\<close>, and \<open>Inr (Some items)\<close> when it returns an array. A URI
  without an open document makes \<open>this.documents.get\<close> return \<open>undefined\<close>, and the
  call of \<open>offsetAt\<close> on it throws.
\<close>

definition handleCompletion ::
  "('c, 'e, 'o) adapter \<Rightarrow> text_document_position_params \<Rightarrow> ('c, 'e, 'z) server_scheme
     \<Rightarrow> (js_error + completion_item list option) \<times> ('c, 'e, 'z) server_scheme" where
  "handleCompletion env params st =
     (let u = td_uri (textDocument params) in
      case documents st u of
        None \<Rightarrow> (Inl TypeError, st)
      | Some doc \<Rightarrow>
          let cursorOffset = offsetAt doc (position_of params) in
          case tokensForCompletion env doc u st of
            (toks, st1) \<Rightarrow>
              if isCursorInToken toks cursorOffset then (Inr None, st1)
              else
                let prefix = tokensBeforeCursor toks cursorOffset;
                    completions = computeContentAssist env ''MappingDoc'' prefix;
                    st2 = st1\<lparr>calls := calls st1 @ [ComputeContentAssist ''MappingDoc'' prefix]\<rparr>
                in if list_ex (\<lambda>completion. tokenName (nextTokenType completion) = ''Mapping'')
                        completions
                   then (Inr (Some [basicSMS2MappingItem env doc cursorOffset]), st2)
                   else (Inr None, st2))"

section \<open>Example inputs\<close>

text \<open>
  A document on one line, whose coordinate conversions neither wrap nor clamp, three
  tokens separated by one character each, and a parser that proposes the \<open>Mapping\<close>
  token after the empty prefix only.
\<close>

definition ex_uri :: uri where
  "ex_uri = ''file:///m.sms''"

definition ex_token :: "int \<Rightarrow> int \<Rightarrow> token" where
  "ex_token s e =
     \<lparr>tokenType = \<lparr>tokenName = ''Iri''\<rparr>, startOffset = s, endOffset = e,
      image_tok = ''<a>''\<rparr>"

definition ex_tokens :: "token list" where
  "ex_tokens = [ex_token 0 2, ex_token 4 6, ex_token 8 10]"

definition ex_document :: "string \<Rightarrow> document" where
  "ex_document content =
     \<lparr>uri = ex_uri, getText = content,
      offsetAt = (\<lambda>p. character p),
      positionAt = (\<lambda>n. \<lparr>line = 0, character = n\<rparr>)\<rparr>"

definition ex_diagnostic :: "string \<Rightarrow> diagnostic" where
  "ex_diagnostic m =
     \<lparr>diag_range = \<lparr>range_start = \<lparr>line = 0, character = 0\<rparr>,
                    range_end = \<lparr>line = 0, character = 1\<rparr>\<rparr>,
      severity = 1, message = m\<rparr>"

definition ex_env :: "(unit, string, unit) adapter" where
  "ex_env =
     \<lparr>parse = (\<lambda>content m.
        \<lparr>out_cst = (), out_errors = [], out_rest = (),
         out_input = (if m = Some ''stardog'' then ex_tokens else take 2 ex_tokens)\<rparr>),
      computeContentAssist = (\<lambda>rule prefix.
        if prefix = [] then [\<lparr>nextTokenType = \<lparr>tokenName = ''Mapping''\<rparr>, ruleStack = [rule]\<rparr>]
        else [\<lparr>nextTokenType = \<lparr>tokenName = ''LCurly''\<rparr>, ruleStack = [rule]\<rparr>]),
      getLexDiagnostics = (\<lambda>d ts. [ex_diagnostic ''lexical'']),
      getParseDiagnostics = (\<lambda>d es. map ex_diagnostic es),
      basicSMS2Mapping = ''MAPPING''\<rparr>"

definition ex_results :: "(unit, string, unit) parse_results" where
  "ex_results =
     \<lparr>cst = (), tokens = ex_tokens, errors = [''syntactic''], otherParseData = ()\<rparr>"

definition ex_server ::
  "(uri \<rightharpoonup> document) \<Rightarrow> (uri \<rightharpoonup> unit parse_state) \<Rightarrow> (unit, string) server" where
  "ex_server docs cache = \<lparr>documents = docs, parseStates = cache, calls = []\<rparr>"

definition ex_params :: "int \<Rightarrow> text_document_position_params" where
  "ex_params c =
     \<lparr>textDocument = \<lparr>td_uri = ex_uri\<rparr>, position_of = \<lparr>line = 0, character = c\<rparr>\<rparr>"

text \<open>
  Servers with the example document open: one whose cache holds the three tokens, one
  whose cache is empty, and one with an empty document and an empty token vector.
\<close>

definition ex_text :: string where
  "ex_text = ''<a> <b> <c>''"

definition ex_cached :: "(unit, string) server" where
  "ex_cached =
     ex_server [ex_uri \<mapsto> ex_document ex_text]
       [ex_uri \<mapsto> \<lparr>ps_cst = Some (), ps_tokens = Some ex_tokens\<rparr>]"

definition ex_uncached :: "(unit, string) server" where
  "ex_uncached = ex_server [ex_uri \<mapsto> ex_document ex_text] Map.empty"

definition ex_blank :: "(unit, string) server" where
  "ex_blank =
     ex_server [ex_uri \<mapsto> ex_document []]
       [ex_uri \<mapsto> \<lparr>ps_cst = Some (), ps_tokens = Some []\<rparr>]"

text \<open>
  A server whose cache holds a one-character token (offsets 4 to 4) between two
  longer ones.
\<close>

definition ex_short_tokens :: "token list" where
  "ex_short_tokens = [ex_token 0 2, ex_token 4 4, ex_token 6 8]"

definition ex_cached_short :: "(unit, string) server" where
  "ex_cached_short =
     ex_server [ex_uri \<mapsto> ex_document ex_text]
       [ex_uri \<mapsto> \<lparr>ps_cst = Some (), ps_tokens = Some ex_short_tokens\<rparr>]"

section \<open>The token before the cursor\<close>

lemma scanBack_bounds:
  "-1 \<le> i \<Longrightarrow> -1 \<le> scanBack toks C i \<and> scanBack toks C i \<le> i"
proof (induction toks C i rule: scanBack.induct)
  case (1 toks C i)
  then show ?case
    by (cases "i > -1"; cases "endOffset (toks ! nat i) + 1 < C")
       (simp_all add: scanBack.simps[of toks C i])
qed

lemma scanBack_hit:
  "scanBack toks C i \<noteq> -1 \<Longrightarrow> endOffset (toks ! nat (scanBack toks C i)) + 1 < C"
proof (induction toks C i rule: scanBack.induct)
  case (1 toks C i)
  then show ?case
    by (cases "i > -1"; cases "endOffset (toks ! nat i) + 1 < C")
       (simp_all add: scanBack.simps[of toks C i])
qed

lemma scanBack_skipped:
  "scanBack toks C i < j \<Longrightarrow> j \<le> i \<Longrightarrow> \<not> endOffset (toks ! nat j) + 1 < C"
proof (induction toks C i rule: scanBack.induct)
  case (1 toks C i)
  show ?case
  proof (cases "i > -1")
    case False
    with 1(2,3) show ?thesis by (simp add: scanBack.simps[of toks C i])
  next
    case pos: True
    show ?thesis
    proof (cases "endOffset (toks ! nat i) + 1 < C")
      case True
      with pos 1(2,3) show ?thesis by (simp add: scanBack.simps[of toks C i])
    next
      case False
      have eq: "scanBack toks C i = scanBack toks C (i - 1)"
        using pos False by (simp add: scanBack.simps[of toks C i])
      show ?thesis
      proof (cases "j = i")
        case True
        with False show ?thesis by simp
      next
        case False
        with 1(3) have "j \<le> i - 1" by simp
        with 1(1)[OF pos \<open>\<not> endOffset (toks ! nat i) + 1 < C\<close>] 1(2) eq
        show ?thesis by simp
      qed
    qed
  qed
qed

lemma tokenIndexBeforeCursor_range:
  "-1 \<le> tokenIndexBeforeCursor toks C \<and> tokenIndexBeforeCursor toks C < int (length toks)"
  using scanBack_bounds[of "int (length toks) - 1" toks C]
  by (simp add: tokenIndexBeforeCursor_def)

lemma tokenIndexBeforeCursor_hit:
  "tokenIndexBeforeCursor toks C \<noteq> -1 \<Longrightarrow>
   endOffset (toks ! nat (tokenIndexBeforeCursor toks C)) + 1 < C"
  unfolding tokenIndexBeforeCursor_def by (rule scanBack_hit)

lemma tokenIndexBeforeCursor_later:
  "tokenIndexBeforeCursor toks C < int k \<Longrightarrow> k < length toks \<Longrightarrow>
   \<not> endOffset (toks ! k) + 1 < C"
  using scanBack_skipped[of toks C "int (length toks) - 1" "int k"]
  by (simp add: tokenIndexBeforeCursor_def)

text \<open>
  C1. On a token sequence in ascending order (each token ends after the one before
  it), the search returns the index of the one token with the greatest \<open>endOffset\<close>
  among those with \<open>endOffset + 1 < C\<close>: that token satisfies the bound and every
  other token that satisfies it ends strictly earlier. When no token satisfies the
  bound, the search returns \<open>-1\<close>.
\<close>

theorem token_before_cursor_is_maximal:
  assumes ord: "sorted_wrt (\<lambda>a b. endOffset a < endOffset b) T"
  shows "((\<exists>t\<in>set T. endOffset t + 1 < C) \<longrightarrow>
            0 \<le> tokenIndexBeforeCursor T C \<and>
            tokenIndexBeforeCursor T C < int (length T) \<and>
            endOffset (T ! nat (tokenIndexBeforeCursor T C)) + 1 < C \<and>
            (\<forall>t\<in>set T. endOffset t + 1 < C \<and> t \<noteq> T ! nat (tokenIndexBeforeCursor T C)
               \<longrightarrow> endOffset t < endOffset (T ! nat (tokenIndexBeforeCursor T C)))) \<and>
         (\<not> (\<exists>t\<in>set T. endOffset t + 1 < C) \<longrightarrow> tokenIndexBeforeCursor T C = -1)"
proof (intro conjI impI)
  let ?r = "tokenIndexBeforeCursor T C"
  note rng = tokenIndexBeforeCursor_range[of T C]
  {
    assume none: "\<not> (\<exists>t\<in>set T. endOffset t + 1 < C)"
    show "?r = -1"
    proof (rule ccontr)
      assume ne: "?r \<noteq> -1"
      with rng have "nat ?r < length T" by linarith
      then have "T ! nat ?r \<in> set T" by simp
      with tokenIndexBeforeCursor_hit[OF ne] none show False by blast
    qed
  }
  assume ex: "\<exists>t\<in>set T. endOffset t + 1 < C"
  then obtain k where k: "k < length T" "endOffset (T ! k) + 1 < C"
    by (auto simp: in_set_conv_nth)
  have kr: "int k \<le> ?r"
    using tokenIndexBeforeCursor_later[of T C k] k by fastforce
  then show nonneg: "0 \<le> ?r" by simp
  show "?r < int (length T)" using rng by simp
  have ne: "?r \<noteq> -1" using nonneg by simp
  show "endOffset (T ! nat ?r) + 1 < C" by (rule tokenIndexBeforeCursor_hit[OF ne])
  show "\<forall>t\<in>set T. endOffset t + 1 < C \<and> t \<noteq> T ! nat ?r
          \<longrightarrow> endOffset t < endOffset (T ! nat ?r)"
  proof (intro ballI impI)
    fix t assume t: "t \<in> set T" and h: "endOffset t + 1 < C \<and> t \<noteq> T ! nat ?r"
    from t obtain j where j: "j < length T" "T ! j = t" by (auto simp: in_set_conv_nth)
    have "int j \<le> ?r" using tokenIndexBeforeCursor_later[of T C j] j h by fastforce
    moreover have "j \<noteq> nat ?r" using h j by auto
    ultimately have "j < nat ?r" by linarith
    moreover have "nat ?r < length T" using rng nonneg by linarith
    ultimately have "endOffset (T ! j) < endOffset (T ! nat ?r)"
      using ord by (simp add: sorted_wrt_iff_nth_less)
    with j show "endOffset t < endOffset (T ! nat ?r)" by simp
  qed
qed

theorem token_before_cursor_is_maximal_witness:
  "tokenIndexBeforeCursor ex_tokens 8 = 1 \<and>
   endOffset (ex_tokens ! 1) + 1 < 8 \<and>
   endOffset (ex_tokens ! 0) < endOffset (ex_tokens ! 1) \<and>
   tokenIndexBeforeCursor ex_tokens 3 = -1"
proof -
  have ord: "sorted_wrt (\<lambda>a b. endOffset a < endOffset b) ex_tokens"
    by (simp add: ex_tokens_def ex_token_def)
  have some: "\<exists>t\<in>set ex_tokens. endOffset t + 1 < 8"
    by (simp add: ex_tokens_def ex_token_def)
  have none: "\<not> (\<exists>t\<in>set ex_tokens. endOffset t + 1 < 3)"
    by (simp add: ex_tokens_def ex_token_def)
  have at8: "tokenIndexBeforeCursor ex_tokens 8 = 1"
    by (simp add: tokenIndexBeforeCursor_def scanBack.simps ex_tokens_def ex_token_def)
  have first: "ex_tokens ! 0 \<in> set ex_tokens" "endOffset (ex_tokens ! 0) + 1 < 8"
    "ex_tokens ! 0 \<noteq> ex_tokens ! 1"
    by (simp_all add: ex_tokens_def ex_token_def)
  from some token_before_cursor_is_maximal[OF ord, of 8]
  have "endOffset (ex_tokens ! nat (tokenIndexBeforeCursor ex_tokens 8)) + 1 < 8 \<and>
        (\<forall>t\<in>set ex_tokens.
           endOffset t + 1 < 8 \<and> t \<noteq> ex_tokens ! nat (tokenIndexBeforeCursor ex_tokens 8)
           \<longrightarrow> endOffset t < endOffset (ex_tokens ! nat (tokenIndexBeforeCursor ex_tokens 8)))"
    by blast
  with first have "endOffset (ex_tokens ! 1) + 1 < 8 \<and>
      endOffset (ex_tokens ! 0) < endOffset (ex_tokens ! 1)"
    unfolding at8 by auto
  moreover from none token_before_cursor_is_maximal[OF ord, of 3]
  have "tokenIndexBeforeCursor ex_tokens 3 = -1" by blast
  ultimately show ?thesis using at8 by simp
qed

section \<open>Diagnostics\<close>

text \<open>
  C6. For a document whose text is empty, the content-change handler of either server
  makes one call only: it sends the empty batch for the document's URI. Neither
  diagnostics pass is called, whatever the parse results and the passes are.
\<close>

theorem empty_text_clears_diagnostics:
  assumes "getText doc = []"
  shows "onContentChange env doc parseResults st =
           st\<lparr>calls := calls st @ [SendDiagnostics (uri doc) []]\<rparr> \<and>
         trig_onContentChange env doc parseResults tst =
           tst\<lparr>calls := calls tst @ [SendDiagnostics (uri doc) []]\<rparr>"
  using assms
  by (simp add: onContentChange_def trig_onContentChange_def sendDiagnostics_def)

theorem empty_text_clears_diagnostics_witness:
  "getText (ex_document []) = [] \<and>
   calls (onContentChange ex_env (ex_document []) ex_results
            (ex_server Map.empty Map.empty)) =
     [SendDiagnostics ex_uri []] \<and>
   calls (trig_onContentChange ex_env (ex_document []) ex_results
            (trig_new Map.empty :: (unit, string) trig_server)) =
     [SendDiagnostics ex_uri []]"
proof -
  have h: "getText (ex_document []) = []"
    by (simp add: ex_document_def)
  show ?thesis
    using h
      empty_text_clears_diagnostics[OF h, where env = ex_env and parseResults = ex_results
        and st = "ex_server Map.empty Map.empty"
        and tst = "trig_new Map.empty :: (unit, string) trig_server"]
    by (simp add: ex_server_def trig_new_def ex_document_def)
qed

text \<open>
  C7. For a document whose text is not empty, the content-change handler of either
  server runs the lexical pass, then the syntactic pass, and sends one batch for the
  document's URI: the lexical diagnostics followed by the syntactic ones.
\<close>

theorem nonempty_text_sends_lexical_then_syntactic:
  assumes "getText doc \<noteq> []"
  shows "onContentChange env doc parseResults st =
           st\<lparr>calls := calls st @
              [GetLexDiagnostics doc (tokens parseResults),
               GetParseDiagnostics doc (errors parseResults),
               SendDiagnostics (uri doc)
                 (getLexDiagnostics env doc (tokens parseResults) @
                  getParseDiagnostics env doc (errors parseResults))]\<rparr> \<and>
         trig_onContentChange env doc parseResults tst =
           tst\<lparr>calls := calls tst @
              [GetLexDiagnostics doc (tokens parseResults),
               GetParseDiagnostics doc (errors parseResults),
               SendDiagnostics (uri doc)
                 (getLexDiagnostics env doc (tokens parseResults) @
                  getParseDiagnostics env doc (errors parseResults))]\<rparr>"
  using assms
  by (simp add: onContentChange_def trig_onContentChange_def sendDiagnostics_def Let_def)

theorem nonempty_text_sends_lexical_then_syntactic_witness:
  "getText (ex_document ''<a> <b> <c>'') \<noteq> [] \<and>
   calls (onContentChange ex_env (ex_document ''<a> <b> <c>'') ex_results
            (ex_server Map.empty Map.empty)) =
     [GetLexDiagnostics (ex_document ''<a> <b> <c>'') ex_tokens,
      GetParseDiagnostics (ex_document ''<a> <b> <c>'') [''syntactic''],
      SendDiagnostics ex_uri [ex_diagnostic ''lexical'', ex_diagnostic ''syntactic'']] \<and>
   calls (trig_onContentChange ex_env (ex_document ''<a> <b> <c>'') ex_results
            (trig_new Map.empty :: (unit, string) trig_server)) =
     [GetLexDiagnostics (ex_document ''<a> <b> <c>'') ex_tokens,
      GetParseDiagnostics (ex_document ''<a> <b> <c>'') [''syntactic''],
      SendDiagnostics ex_uri [ex_diagnostic ''lexical'', ex_diagnostic ''syntactic'']]"
proof -
  have h: "getText (ex_document ''<a> <b> <c>'') \<noteq> []"
    by (simp add: ex_document_def)
  have u: "uri (ex_document ''<a> <b> <c>'') = ex_uri"
    by (simp add: ex_document_def)
  show ?thesis
    using h
      nonempty_text_sends_lexical_then_syntactic[OF h, where env = ex_env
        and parseResults = ex_results
        and st = "ex_server Map.empty Map.empty"
        and tst = "trig_new Map.empty :: (unit, string) trig_server"]
    by (simp add: u ex_server_def trig_new_def ex_env_def ex_results_def)
qed

section \<open>Dialect mode of the TriG server\<close>

text \<open>
  C8. When the initialization options are an object whose \<open>mode\<close> is the string
  \<open>stardog\<close> or \<open>standard\<close>, initialization sets the server's mode to it. In every
  other case (no options, options that are no object, no \<open>mode\<close>, any other value)
  initialization leaves the server as it was, so a new server keeps \<open>standard\<close>. It
  returns its capabilities in either case. Every \<open>parseDocument\<close> calls the parser
  once, with the document text and the server's mode, and returns what that call gave.
\<close>

theorem trig_mode_selection:
  "(initializationOptions params = Some (JObj kvs) \<and>
      map_of kvs ''mode'' = Some (JStr m) \<and> (m = ''stardog'' \<or> m = ''standard'')
      \<longrightarrow> trig_onInitialization sync params st =
            (\<lparr>textDocumentSync = sync, hoverProvider = True\<rparr>, st\<lparr>mode := m\<rparr>)) \<and>
   ((\<forall>ms. initializationOptions params = Some (JObj ms) \<longrightarrow>
        map_of ms ''mode'' \<noteq> Some (JStr ''stardog'') \<and>
        map_of ms ''mode'' \<noteq> Some (JStr ''standard''))
      \<longrightarrow> trig_onInitialization sync params st =
            (\<lparr>textDocumentSync = sync, hoverProvider = True\<rparr>, st)) \<and>
   mode (trig_new docs :: ('c, 'e) trig_server) = ''standard'' \<and>
   trig_parseDocument env doc st =
     (\<lparr>cst = out_cst (parse env (getText doc) (Some (mode st))),
       tokens = out_input (parse env (getText doc) (Some (mode st))),
       errors = out_errors (parse env (getText doc) (Some (mode st))),
       otherParseData = out_rest (parse env (getText doc) (Some (mode st)))\<rparr>,
      st\<lparr>calls := calls st @ [ParserParse (getText doc) (Some (mode st))]\<rparr>)"
proof (intro conjI impI)
  assume "initializationOptions params = Some (JObj kvs) \<and>
      map_of kvs ''mode'' = Some (JStr m) \<and> (m = ''stardog'' \<or> m = ''standard'')"
  then show "trig_onInitialization sync params st =
            (\<lparr>textDocumentSync = sync, hoverProvider = True\<rparr>, st\<lparr>mode := m\<rparr>)"
    by (auto simp: trig_onInitialization_def)
next
  assume inv: "\<forall>ms. initializationOptions params = Some (JObj ms) \<longrightarrow>
        map_of ms ''mode'' \<noteq> Some (JStr ''stardog'') \<and>
        map_of ms ''mode'' \<noteq> Some (JStr ''standard'')"
  show "trig_onInitialization sync params st =
            (\<lparr>textDocumentSync = sync, hoverProvider = True\<rparr>, st)"
  proof (cases "initializationOptions params")
    case None
    then show ?thesis by (simp add: trig_onInitialization_def)
  next
    case (Some opts)
    with inv have "mode_member opts \<noteq> Some (JStr ''stardog'')"
      "mode_member opts \<noteq> Some (JStr ''standard'')"
      by (cases opts; simp)+
    with Some show ?thesis by (simp add: trig_onInitialization_def)
  qed
next
  show "mode (trig_new docs :: ('c, 'e) trig_server) = ''standard''"
    by (simp add: trig_new_def)
next
  show "trig_parseDocument env doc st =
     (\<lparr>cst = out_cst (parse env (getText doc) (Some (mode st))),
       tokens = out_input (parse env (getText doc) (Some (mode st))),
       errors = out_errors (parse env (getText doc) (Some (mode st))),
       otherParseData = out_rest (parse env (getText doc) (Some (mode st)))\<rparr>,
      st\<lparr>calls := calls st @ [ParserParse (getText doc) (Some (mode st))]\<rparr>)"
    by (simp add: trig_parseDocument_def Let_def)
qed

theorem trig_mode_selection_witness:
  "mode (snd (trig_onInitialization None
      \<lparr>initializationOptions = Some (JObj [(''mode'', JStr ''stardog'')])\<rparr>
      (trig_new Map.empty :: (unit, string) trig_server))) = ''stardog'' \<and>
   mode (snd (trig_onInitialization None
      \<lparr>initializationOptions = Some (JObj [(''mode'', JStr ''turbo'')])\<rparr>
      (trig_new Map.empty :: (unit, string) trig_server))) = ''standard'' \<and>
   mode (snd (trig_onInitialization None
      \<lparr>initializationOptions = Some (JStr ''stardog'')\<rparr>
      (trig_new Map.empty :: (unit, string) trig_server))) = ''standard'' \<and>
   mode (snd (trig_onInitialization None
      \<lparr>initializationOptions = None\<rparr>
      (trig_new Map.empty :: (unit, string) trig_server))) = ''standard'' \<and>
   calls (snd (trig_parseDocument ex_env (ex_document ''<a>'')
      ((trig_new Map.empty :: (unit, string) trig_server)\<lparr>mode := ''stardog''\<rparr>))) =
     [ParserParse ''<a>'' (Some ''stardog'')] \<and>
   tokens (fst (trig_parseDocument ex_env (ex_document ''<a>'')
      ((trig_new Map.empty :: (unit, string) trig_server)\<lparr>mode := ''stardog''\<rparr>))) =
     ex_tokens"
proof -
  let ?new = "trig_new Map.empty :: (unit, string) trig_server"
  have valid: "initializationOptions
        \<lparr>initializationOptions = Some (JObj [(''mode'', JStr ''stardog'')])\<rparr> =
        Some (JObj [(''mode'', JStr ''stardog'')]) \<and>
      map_of [(''mode'', JStr ''stardog'')] ''mode'' = Some (JStr ''stardog'') \<and>
      (''stardog'' = ''stardog'' \<or> ''stardog'' = ''standard'')"
    by simp
  have turbo: "\<forall>ms. initializationOptions
        \<lparr>initializationOptions = Some (JObj [(''mode'', JStr ''turbo'')])\<rparr> = Some (JObj ms) \<longrightarrow>
        map_of ms ''mode'' \<noteq> Some (JStr ''stardog'') \<and>
        map_of ms ''mode'' \<noteq> Some (JStr ''standard'')"
    by auto
  have str: "\<forall>ms. initializationOptions
        \<lparr>initializationOptions = Some (JStr ''stardog'')\<rparr> = Some (JObj ms) \<longrightarrow>
        map_of ms ''mode'' \<noteq> Some (JStr ''stardog'') \<and>
        map_of ms ''mode'' \<noteq> Some (JStr ''standard'')"
    by simp
  have absent: "\<forall>ms. initializationOptions \<lparr>initializationOptions = None\<rparr> = Some (JObj ms) \<longrightarrow>
        map_of ms ''mode'' \<noteq> Some (JStr ''stardog'') \<and>
        map_of ms ''mode'' \<noteq> Some (JStr ''standard'')"
    by simp
  note inst = trig_mode_selection[where sync = None and st = ?new and docs = Map.empty]
  have 1: "trig_onInitialization None
      \<lparr>initializationOptions = Some (JObj [(''mode'', JStr ''stardog'')])\<rparr> ?new =
      (\<lparr>textDocumentSync = None, hoverProvider = True\<rparr>, ?new\<lparr>mode := ''stardog''\<rparr>)"
    using valid inst[where params = "\<lparr>initializationOptions = Some (JObj [(''mode'', JStr ''stardog'')])\<rparr>"
        and kvs = "[(''mode'', JStr ''stardog'')]" and m = "''stardog''"]
    by blast
  have 2: "trig_onInitialization None
      \<lparr>initializationOptions = Some (JObj [(''mode'', JStr ''turbo'')])\<rparr> ?new =
      (\<lparr>textDocumentSync = None, hoverProvider = True\<rparr>, ?new)"
    using turbo inst[where params = "\<lparr>initializationOptions = Some (JObj [(''mode'', JStr ''turbo'')])\<rparr>"]
    by blast
  have 3: "trig_onInitialization None
      \<lparr>initializationOptions = Some (JStr ''stardog'')\<rparr> ?new =
      (\<lparr>textDocumentSync = None, hoverProvider = True\<rparr>, ?new)"
    using str inst[where params = "\<lparr>initializationOptions = Some (JStr ''stardog'')\<rparr>"]
    by blast
  have 4: "trig_onInitialization None \<lparr>initializationOptions = None\<rparr> ?new =
      (\<lparr>textDocumentSync = None, hoverProvider = True\<rparr>, ?new)"
    using absent inst[where params = "\<lparr>initializationOptions = None\<rparr>"]
    by blast
  have 5: "mode ?new = ''standard''"
    using inst by blast
  have 6: "trig_parseDocument ex_env (ex_document ''<a>'') (?new\<lparr>mode := ''stardog''\<rparr>) =
     (\<lparr>cst = out_cst (parse ex_env ''<a>'' (Some ''stardog'')),
       tokens = out_input (parse ex_env ''<a>'' (Some ''stardog'')),
       errors = out_errors (parse ex_env ''<a>'' (Some ''stardog'')),
       otherParseData = out_rest (parse ex_env ''<a>'' (Some ''stardog''))\<rparr>,
      ?new\<lparr>mode := ''stardog'', calls := [ParserParse ''<a>'' (Some ''stardog'')]\<rparr>)"
    using trig_mode_selection[where env = ex_env and doc = "ex_document ''<a>''"
        and st = "?new\<lparr>mode := ''stardog''\<rparr>"]
    by (simp add: ex_document_def trig_new_def)
  show ?thesis
    unfolding 1 2 3 4 6 using 5 by (simp add: ex_env_def)
qed

section \<open>Completion\<close>

subsection \<open>Where the search stops on ordered tokens\<close>

lemma tokenIndexBeforeCursor_split:
  assumes k: "k \<le> length toks"
    and before: "\<forall>j<k. endOffset (toks ! j) + 1 < C"
    and after: "\<forall>j. k \<le> j \<and> j < length toks \<longrightarrow> \<not> endOffset (toks ! j) + 1 < C"
  shows "tokenIndexBeforeCursor toks C = int k - 1"
proof -
  let ?r = "tokenIndexBeforeCursor toks C"
  note rng = tokenIndexBeforeCursor_range[of toks C]
  have upper: "?r < int k"
  proof (rule ccontr)
    assume "\<not> ?r < int k"
    then have ge: "int k \<le> ?r" by simp
    then have ne: "?r \<noteq> -1" by simp
    have "k \<le> nat ?r \<and> nat ?r < length toks" using ge rng by linarith
    with after tokenIndexBeforeCursor_hit[OF ne] show False by blast
  qed
  have lower: "int k - 1 \<le> ?r"
  proof (cases k)
    case 0
    with rng show ?thesis by simp
  next
    case (Suc n)
    then have "n < length toks" "endOffset (toks ! n) + 1 < C" using k before by auto
    with tokenIndexBeforeCursor_later[of toks C n] have "\<not> ?r < int n" by blast
    with Suc show ?thesis by simp
  qed
  from upper lower show ?thesis by simp
qed

lemma ends_ascending:
  assumes "sorted_wrt (\<lambda>a b. endOffset a < startOffset b) toks"
    and "\<forall>t\<in>set toks. startOffset t \<le> endOffset t"
  shows "sorted_wrt (\<lambda>a b. endOffset a < endOffset b) toks"
  using assms(2) by (intro sorted_wrt_mono_rel[OF _ assms(1)]) fastforce

lemma cursor_in_token_at:
  assumes ord: "sorted_wrt (\<lambda>a b. endOffset a < endOffset b) toks"
    and k: "k < length toks"
    and prev: "\<forall>j<k. endOffset (toks ! j) + 1 < C"
    and here: "\<not> endOffset (toks ! k) + 1 < C"
  shows "tokenAfterTokenBeforeCursor toks C = Some (toks ! k)"
proof -
  have "\<forall>j. k \<le> j \<and> j < length toks \<longrightarrow> \<not> endOffset (toks ! j) + 1 < C"
  proof (intro allI impI)
    fix j assume j: "k \<le> j \<and> j < length toks"
    have "endOffset (toks ! k) \<le> endOffset (toks ! j)"
    proof (cases "k = j")
      case True then show ?thesis by simp
    next
      case False
      with j have "k < j" by simp
      with ord j show ?thesis by (simp add: sorted_wrt_iff_nth_less less_imp_le)
    qed
    with here show "\<not> endOffset (toks ! j) + 1 < C" by simp
  qed
  with tokenIndexBeforeCursor_split[of k toks C] k prev
  have "tokenIndexBeforeCursor toks C = int k - 1" by simp
  with k show ?thesis by (simp add: tokenAfterTokenBeforeCursor_def)
qed

lemma cursor_after_token_end:
  assumes ord: "sorted_wrt (\<lambda>a b. endOffset a < endOffset b) toks"
    and t: "t \<in> set toks" and C: "C = endOffset t + 1"
  shows "\<not> isCursorInToken toks C"
proof -
  from t obtain k where k: "k < length toks" "toks ! k = t" by (auto simp: in_set_conv_nth)
  have prev: "\<forall>j<k. endOffset (toks ! j) + 1 < C"
  proof (intro allI impI)
    fix j assume "j < k"
    with ord k have "endOffset (toks ! j) < endOffset t"
      by (auto simp: sorted_wrt_iff_nth_less)
    with C show "endOffset (toks ! j) + 1 < C" by simp
  qed
  have here: "\<not> endOffset (toks ! k) + 1 < C" using k C by simp
  from cursor_in_token_at[OF ord k(1) prev here] k C
  show ?thesis by (simp add: isCursorInToken_def)
qed

lemma cursor_within_token:
  assumes ord: "sorted_wrt (\<lambda>a b. endOffset a < startOffset b) toks"
    and ne: "\<forall>t\<in>set toks. startOffset t \<le> endOffset t"
    and t: "t \<in> set toks"
    and span: "startOffset t \<le> C" "C \<le> endOffset t" "startOffset t \<noteq> endOffset t"
    and gap: "\<forall>p\<in>set toks. endOffset p + 1 \<noteq> C"
  shows "isCursorInToken toks C"
proof -
  from t obtain k where k: "k < length toks" "toks ! k = t" by (auto simp: in_set_conv_nth)
  have prev: "\<forall>j<k. endOffset (toks ! j) + 1 < C"
  proof (intro allI impI)
    fix j assume j: "j < k"
    with ord k have "endOffset (toks ! j) < startOffset t"
      by (auto simp: sorted_wrt_iff_nth_less)
    moreover have "endOffset (toks ! j) + 1 \<noteq> C" using gap j k by simp
    ultimately show "endOffset (toks ! j) + 1 < C" using span by simp
  qed
  have here: "\<not> endOffset (toks ! k) + 1 < C" using k span by simp
  from cursor_in_token_at[OF ends_ascending[OF ord ne] k(1) prev here] k span
  show ?thesis by (simp add: isCursorInToken_def)
qed


lemma cursor_in_token_span:
  assumes "isCursorInToken toks C"
  shows "\<exists>t\<in>set toks. startOffset t \<le> C \<and> C \<le> endOffset t \<and> startOffset t \<noteq> endOffset t"
proof -
  from assms obtain u where
    u: "tokenAfterTokenBeforeCursor toks C = Some u"
      "startOffset u \<le> C" "C \<le> endOffset u" "startOffset u \<noteq> endOffset u"
    by (auto simp: isCursorInToken_def split: option.splits)
  from u(1) have "u \<in> set toks"
    by (auto simp: tokenAfterTokenBeforeCursor_def Let_def split: if_splits)
  with u show ?thesis by blast
qed

lemma cursor_in_token_gap:
  assumes ord: "sorted_wrt (\<lambda>a b. endOffset a < endOffset b) toks"
    and inside: "isCursorInToken toks C"
  shows "\<forall>p\<in>set toks. endOffset p + 1 \<noteq> C"
proof
  fix p assume p: "p \<in> set toks"
  let ?r = "tokenIndexBeforeCursor toks C"
  from inside obtain u where
    u: "tokenAfterTokenBeforeCursor toks C = Some u" "C \<le> endOffset u"
    by (auto simp: isCursorInToken_def split: option.splits)
  from u(1) have k: "0 \<le> ?r + 1" "?r + 1 < int (length toks)" "u = toks ! nat (?r + 1)"
    by (auto simp: tokenAfterTokenBeforeCursor_def Let_def split: if_splits)
  from p obtain j where j: "j < length toks" "toks ! j = p" by (auto simp: in_set_conv_nth)
  show "endOffset p + 1 \<noteq> C"
  proof
    assume e: "endOffset p + 1 = C"
    have "j < nat (?r + 1)"
    proof (rule ccontr)
      assume "\<not> j < nat (?r + 1)"
      then have "nat (?r + 1) = j \<or> nat (?r + 1) < j" by linarith
      then have "endOffset (toks ! nat (?r + 1)) \<le> endOffset (toks ! j)"
        using ord j by (auto simp: sorted_wrt_iff_nth_less less_imp_le)
      with k(3) j(2) u(2) e show False by simp
    qed
    then have jr: "int j \<le> ?r" by linarith
    then have ne: "?r \<noteq> -1" by simp
    have "nat ?r < length toks" using k jr by linarith
    moreover have "j = nat ?r \<or> j < nat ?r" using jr by linarith
    ultimately have "endOffset (toks ! j) \<le> endOffset (toks ! nat ?r)"
      using ord by (auto simp: sorted_wrt_iff_nth_less less_imp_le)
    with tokenIndexBeforeCursor_hit[OF ne] j(2) e show False by simp
  qed
qed

lemma cursor_at_empty_width_token:
  assumes ord: "sorted_wrt (\<lambda>a b. endOffset a < startOffset b) toks"
    and t: "t \<in> set toks" and C: "C = startOffset t" "startOffset t = endOffset t"
  shows "\<not> isCursorInToken toks C"
proof
  assume "isCursorInToken toks C"
  from cursor_in_token_span[OF this] obtain u where
    u: "u \<in> set toks" "startOffset u \<le> C" "C \<le> endOffset u" "startOffset u \<noteq> endOffset u"
    by blast
  from t u(1) obtain i j where
    ij: "i < length toks" "toks ! i = t" "j < length toks" "toks ! j = u"
    by (auto simp: in_set_conv_nth)
  have "i < j \<or> i = j \<or> j < i" by linarith
  then show False
  proof (elim disjE)
    assume "i < j"
    with ord ij have "endOffset t < startOffset u" by (auto simp: sorted_wrt_iff_nth_less)
    with C u(2) show False by simp
  next
    assume "i = j"
    with ij C u(4) show False by simp
  next
    assume "j < i"
    with ord ij have "endOffset u < startOffset t" by (auto simp: sorted_wrt_iff_nth_less)
    with C u(3) show False by simp
  qed
qed

subsection \<open>The handler, case by case\<close>

lemma handleCompletion_no_document:
  "documents st (td_uri (textDocument params)) = None \<Longrightarrow>
   handleCompletion env params st = (Inl TypeError, st)"
  by (simp add: handleCompletion_def)

lemma handleCompletion_with_document:
  assumes "documents st (td_uri (textDocument params)) = Some doc"
    and "tokensForCompletion env doc (td_uri (textDocument params)) st = (toks, st1)"
  shows "handleCompletion env params st =
     (if isCursorInToken toks (offsetAt doc (position_of params)) then (Inr None, st1)
      else if list_ex (\<lambda>completion. tokenName (nextTokenType completion) = ''Mapping'')
                (computeContentAssist env ''MappingDoc''
                   (tokensBeforeCursor toks (offsetAt doc (position_of params))))
           then (Inr (Some [basicSMS2MappingItem env doc (offsetAt doc (position_of params))]),
                 st1\<lparr>calls := calls st1 @ [ComputeContentAssist ''MappingDoc''
                    (tokensBeforeCursor toks (offsetAt doc (position_of params)))]\<rparr>)
           else (Inr None,
                 st1\<lparr>calls := calls st1 @ [ComputeContentAssist ''MappingDoc''
                    (tokensBeforeCursor toks (offsetAt doc (position_of params)))]\<rparr>))"
  using assms by (simp add: handleCompletion_def Let_def)

lemma tokensForCompletion_cached:
  "parseStates st u = Some s \<Longrightarrow> ps_tokens s = Some toks \<Longrightarrow>
   tokensForCompletion env doc u st = (toks, st)"
  by (simp add: tokensForCompletion_def getParseStateForUri_def)

lemma tokensForCompletion_fresh:
  "(\<forall>s. parseStates st u = Some s \<longrightarrow> ps_tokens s = None) \<Longrightarrow>
   tokensForCompletion env doc u st =
     (out_input (parse env (getText doc) None),
      st\<lparr>calls := calls st @ [ParserParse (getText doc) None],
         parseStates := (parseStates st)(u \<mapsto>
           \<lparr>ps_cst = Some (out_cst (parse env (getText doc) None)),
            ps_tokens = Some (out_input (parse env (getText doc) None))\<rparr>)\<rparr>)"
  by (cases "parseStates st u")
     (simp_all add: tokensForCompletion_def getParseStateForUri_def parseDocument_def
        saveParseStateForUri_def Let_def)

lemma tokensForCompletion_calls:
  "tokensForCompletion env doc u st = (toks, st1) \<Longrightarrow>
   calls st1 = calls st \<or> calls st1 = calls st @ [ParserParse (getText doc) None]"
  by (auto simp: tokensForCompletion_def parseDocument_def saveParseStateForUri_def Let_def
      split: option.splits)

subsection \<open>The example inputs, evaluated\<close>

lemma ex_tokens_ordered:
  "sorted_wrt (\<lambda>a b. endOffset a < startOffset b) ex_tokens \<and>
   (\<forall>p\<in>set ex_tokens. startOffset p \<le> endOffset p)"
  by (simp add: ex_tokens_def ex_token_def)

lemma ex_index:
  "tokenIndexBeforeCursor ex_tokens 0 = -1"
  "tokenIndexBeforeCursor ex_tokens 3 = -1"
  "tokenIndexBeforeCursor ex_tokens 4 = 0"
  "tokenIndexBeforeCursor ex_tokens 5 = 0"
  "tokenIndexBeforeCursor ex_tokens 7 = 0"
  "tokenIndexBeforeCursor [] 0 = -1"
  "tokenIndexBeforeCursor (take 2 ex_tokens) 3 = -1"
  by (simp_all add: tokenIndexBeforeCursor_def scanBack.simps ex_tokens_def ex_token_def)

lemma ex_in_token:
  "isCursorInToken ex_tokens 0"
  "\<not> isCursorInToken ex_tokens 3"
  "isCursorInToken ex_tokens 4"
  "isCursorInToken ex_tokens 5"
  "\<not> isCursorInToken ex_tokens 7"
  "\<not> isCursorInToken [] 0"
  "\<not> isCursorInToken (take 2 ex_tokens) 3"
  by (simp_all add: isCursorInToken_def tokenAfterTokenBeforeCursor_def ex_index)
     (simp_all add: ex_tokens_def ex_token_def)

lemma ex_prefix:
  "tokensBeforeCursor ex_tokens 3 = []"
  "tokensBeforeCursor ex_tokens 7 = [ex_token 0 2]"
  "tokensBeforeCursor [] 0 = []"
  "tokensBeforeCursor (take 2 ex_tokens) 3 = []"
  by (simp_all add: tokensBeforeCursor_def ex_index)
     (simp_all add: ex_tokens_def)

lemma ex_documents:
  "documents ex_cached (td_uri (textDocument (ex_params c))) = Some (ex_document ex_text)"
  "documents ex_uncached (td_uri (textDocument (ex_params c))) = Some (ex_document ex_text)"
  "documents ex_blank (td_uri (textDocument (ex_params c))) = Some (ex_document [])"
  "documents (ex_server Map.empty Map.empty) (td_uri (textDocument (ex_params c))) = None"
  by (simp_all add: ex_cached_def ex_uncached_def ex_blank_def ex_server_def ex_params_def)

lemma ex_cursor:
  "offsetAt (ex_document content) (position_of (ex_params c)) = c"
  by (simp add: ex_document_def ex_params_def)

lemma ex_cache:
  "parseStates ex_cached (td_uri (textDocument (ex_params c))) =
     Some \<lparr>ps_cst = Some (), ps_tokens = Some ex_tokens\<rparr>"
  "parseStates ex_blank (td_uri (textDocument (ex_params c))) =
     Some \<lparr>ps_cst = Some (), ps_tokens = Some []\<rparr>"
  "parseStates ex_uncached (td_uri (textDocument (ex_params c))) = None"
  by (simp_all add: ex_cached_def ex_uncached_def ex_blank_def ex_server_def ex_params_def)

lemma ex_short:
  "sorted_wrt (\<lambda>a b. endOffset a < startOffset b) ex_short_tokens"
  "\<forall>p\<in>set ex_short_tokens. startOffset p \<le> endOffset p"
  "tokenIndexBeforeCursor ex_short_tokens 4 = 0"
  "tokensBeforeCursor ex_short_tokens 4 = [ex_token 0 2]"
  "documents ex_cached_short (td_uri (textDocument (ex_params c))) = Some (ex_document ex_text)"
  "parseStates ex_cached_short (td_uri (textDocument (ex_params c))) =
     Some \<lparr>ps_cst = Some (), ps_tokens = Some ex_short_tokens\<rparr>"
  "calls ex_cached_short = []"
  by (simp_all add: tokensBeforeCursor_def tokenIndexBeforeCursor_def scanBack.simps
      ex_short_tokens_def ex_token_def ex_cached_short_def ex_server_def ex_params_def)

lemma ex_assist:
  "computeContentAssist ex_env rule [] =
     [\<lparr>nextTokenType = \<lparr>tokenName = ''Mapping''\<rparr>, ruleStack = [rule]\<rparr>]"
  "computeContentAssist ex_env rule [ex_token 0 2] =
     [\<lparr>nextTokenType = \<lparr>tokenName = ''LCurly''\<rparr>, ruleStack = [rule]\<rparr>]"
  by (simp_all add: ex_env_def)

subsection \<open>Cursor inside a token\<close>

text \<open>
  C2, as amended. On tokens in ascending order without overlap, the handler takes the
  in-token return, and then returns nothing and does not query the parser, exactly
  when the cursor offset \<open>C\<close> lies between the \<open>startOffset\<close> and the \<open>endOffset\<close>
  (both included) of a token whose two offsets differ and no token ends at \<open>C - 1\<close>;
  in every other case it queries the parser. So it returns nothing when \<open>C\<close> lies after
  the start of a token and not after its \<open>endOffset\<close>, and when \<open>C\<close> is the start of a
  token longer than one character and no token ends at \<open>C - 1\<close>. It goes on to the
  query when \<open>C\<close> is one past the \<open>endOffset\<close> of a token, and when \<open>C\<close> is the start of
  a one-character token (\<open>startOffset = endOffset\<close>).
\<close>

theorem cursor_in_token_suspends_completion:
  assumes doc: "documents st (td_uri (textDocument params)) = Some doc"
    and toks: "tokensForCompletion env doc (td_uri (textDocument params)) st = (toks, st1)"
    and ord: "sorted_wrt (\<lambda>a b. endOffset a < startOffset b) toks"
    and ne: "\<forall>p\<in>set toks. startOffset p \<le> endOffset p"
    and C: "C = offsetAt doc (position_of params)"
  shows "(isCursorInToken toks C \<longleftrightarrow>
            (\<exists>u\<in>set toks. startOffset u \<le> C \<and> C \<le> endOffset u \<and>
                            startOffset u \<noteq> endOffset u) \<and>
            (\<forall>p\<in>set toks. endOffset p + 1 \<noteq> C)) \<and>
         (isCursorInToken toks C \<longrightarrow> handleCompletion env params st = (Inr None, st1)) \<and>
         (\<not> isCursorInToken toks C \<longrightarrow>
            calls (snd (handleCompletion env params st)) =
              calls st1 @ [ComputeContentAssist ''MappingDoc'' (tokensBeforeCursor toks C)]) \<and>
         (t \<in> set toks \<and> startOffset t < C \<and> C \<le> endOffset t \<longrightarrow>
            isCursorInToken toks C) \<and>
         (t \<in> set toks \<and> C = startOffset t \<and> startOffset t \<noteq> endOffset t \<and>
          (\<forall>p\<in>set toks. endOffset p + 1 \<noteq> C) \<longrightarrow>
            isCursorInToken toks C) \<and>
         (t \<in> set toks \<and> C = endOffset t + 1 \<longrightarrow> \<not> isCursorInToken toks C) \<and>
         (t \<in> set toks \<and> C = startOffset t \<and> startOffset t = endOffset t \<longrightarrow>
            \<not> isCursorInToken toks C)"
proof -
  note hc = handleCompletion_with_document[OF doc toks, folded C]
  note asc = ends_ascending[OF ord ne]
  have char: "isCursorInToken toks C \<longleftrightarrow>
            (\<exists>u\<in>set toks. startOffset u \<le> C \<and> C \<le> endOffset u \<and>
                            startOffset u \<noteq> endOffset u) \<and>
            (\<forall>p\<in>set toks. endOffset p + 1 \<noteq> C)"
  proof
    assume inside: "isCursorInToken toks C"
    from cursor_in_token_span[OF inside] cursor_in_token_gap[OF asc inside]
    show "(\<exists>u\<in>set toks. startOffset u \<le> C \<and> C \<le> endOffset u \<and>
                            startOffset u \<noteq> endOffset u) \<and>
            (\<forall>p\<in>set toks. endOffset p + 1 \<noteq> C)"
      by blast
  next
    assume rhs: "(\<exists>u\<in>set toks. startOffset u \<le> C \<and> C \<le> endOffset u \<and>
                            startOffset u \<noteq> endOffset u) \<and>
            (\<forall>p\<in>set toks. endOffset p + 1 \<noteq> C)"
    then obtain u where u: "u \<in> set toks" "startOffset u \<le> C" "C \<le> endOffset u"
      "startOffset u \<noteq> endOffset u"
      by blast
    from rhs have gap: "\<forall>p\<in>set toks. endOffset p + 1 \<noteq> C" by blast
    show "isCursorInToken toks C"
      by (rule cursor_within_token[OF ord ne u gap])
  qed
  have returns: "isCursorInToken toks C \<longrightarrow> handleCompletion env params st = (Inr None, st1)"
    using hc by simp
  have queries: "\<not> isCursorInToken toks C \<longrightarrow>
            calls (snd (handleCompletion env params st)) =
              calls st1 @ [ComputeContentAssist ''MappingDoc'' (tokensBeforeCursor toks C)]"
    using hc by simp
  have within: "t \<in> set toks \<and> startOffset t < C \<and> C \<le> endOffset t \<longrightarrow>
            isCursorInToken toks C"
  proof
    assume h: "t \<in> set toks \<and> startOffset t < C \<and> C \<le> endOffset t"
    then have t: "t \<in> set toks" by simp
    have gap: "\<forall>p\<in>set toks. endOffset p + 1 \<noteq> C"
    proof
      fix p assume p: "p \<in> set toks"
      show "endOffset p + 1 \<noteq> C"
      proof
        assume e: "endOffset p + 1 = C"
        from p t obtain i j where
          ij: "i < length toks" "toks ! i = p" "j < length toks" "toks ! j = t"
          by (auto simp: in_set_conv_nth)
        have "i < j \<or> i = j \<or> j < i" by linarith
        then show False
        proof (elim disjE)
          assume "i < j"
          with ord ij have "endOffset p < startOffset t" by (auto simp: sorted_wrt_iff_nth_less)
          with e h show False by simp
        next
          assume "i = j"
          with ij e h show False by simp
        next
          assume "j < i"
          with asc ij have "endOffset t < endOffset p" by (auto simp: sorted_wrt_iff_nth_less)
          with e h show False by simp
        qed
      qed
    qed
    from h have "startOffset t \<le> C" "C \<le> endOffset t" "startOffset t \<noteq> endOffset t"
      by simp_all
    from cursor_within_token[OF ord ne t this gap] show "isCursorInToken toks C" .
  qed
  have at_start: "t \<in> set toks \<and> C = startOffset t \<and> startOffset t \<noteq> endOffset t \<and>
          (\<forall>p\<in>set toks. endOffset p + 1 \<noteq> C) \<longrightarrow> isCursorInToken toks C"
  proof
    assume h: "t \<in> set toks \<and> C = startOffset t \<and> startOffset t \<noteq> endOffset t \<and>
          (\<forall>p\<in>set toks. endOffset p + 1 \<noteq> C)"
    then have t: "t \<in> set toks" by simp
    from h ne t have "startOffset t \<le> C" "C \<le> endOffset t" "startOffset t \<noteq> endOffset t"
      by simp_all
    from cursor_within_token[OF ord ne t this] h show "isCursorInToken toks C" by blast
  qed
  have after_end: "t \<in> set toks \<and> C = endOffset t + 1 \<longrightarrow> \<not> isCursorInToken toks C"
    using cursor_after_token_end[OF asc] by blast
  have one_char: "t \<in> set toks \<and> C = startOffset t \<and> startOffset t = endOffset t \<longrightarrow>
            \<not> isCursorInToken toks C"
    using cursor_at_empty_width_token[OF ord] by blast
  from char returns queries within at_start after_end one_char show ?thesis
    by (intro conjI)
qed

theorem cursor_in_token_suspends_completion_witness:
  "handleCompletion ex_env (ex_params 5) ex_cached = (Inr None, ex_cached) \<and>
   handleCompletion ex_env (ex_params 4) ex_cached = (Inr None, ex_cached) \<and>
   \<not> isCursorInToken ex_tokens 7 \<and>
   calls (snd (handleCompletion ex_env (ex_params 7) ex_cached)) =
     [ComputeContentAssist ''MappingDoc'' [ex_token 0 2]] \<and>
   \<not> isCursorInToken ex_short_tokens 4 \<and>
   calls (snd (handleCompletion ex_env (ex_params 4) ex_cached_short)) =
     [ComputeContentAssist ''MappingDoc'' [ex_token 0 2]]"
proof -
  have toks: "tokensForCompletion ex_env (ex_document ex_text)
      (td_uri (textDocument (ex_params c))) ex_cached = (ex_tokens, ex_cached)" for c
    by (rule tokensForCompletion_cached[OF ex_cache(1)]) simp
  have short: "tokensForCompletion ex_env (ex_document ex_text)
      (td_uri (textDocument (ex_params c))) ex_cached_short =
      (ex_short_tokens, ex_cached_short)" for c
    by (rule tokensForCompletion_cached[OF ex_short(6)]) simp
  have t: "ex_token 4 6 \<in> set ex_tokens"
    by (simp add: ex_tokens_def)
  have t1: "ex_token 4 4 \<in> set ex_short_tokens"
    by (simp add: ex_short_tokens_def)
  note inst = cursor_in_token_suspends_completion[OF ex_documents(1) toks
      conjunct1[OF ex_tokens_ordered] conjunct2[OF ex_tokens_ordered],
      where t = "ex_token 4 6"]
  note inst1 = cursor_in_token_suspends_completion[OF ex_short(5) short ex_short(1,2),
      where t = "ex_token 4 4"]
  have inside: "startOffset (ex_token 4 6) < 5 \<and> 5 \<le> endOffset (ex_token 4 6)"
    by (simp add: ex_token_def)
  have start: "4 = startOffset (ex_token 4 6) \<and>
      startOffset (ex_token 4 6) \<noteq> endOffset (ex_token 4 6) \<and>
      (\<forall>p\<in>set ex_tokens. endOffset p + 1 \<noteq> 4)"
    by (simp add: ex_tokens_def ex_token_def)
  have after: "7 = endOffset (ex_token 4 6) + 1"
    by (simp add: ex_token_def)
  have one: "4 = startOffset (ex_token 4 4) \<and>
      startOffset (ex_token 4 4) = endOffset (ex_token 4 4)"
    by (simp add: ex_token_def)
  have none: "calls ex_cached = []"
    by (simp add: ex_cached_def ex_server_def)
  have in5: "isCursorInToken ex_tokens 5"
    using inst[OF ex_cursor[where c = 5, symmetric]] t inside by blast
  have in4: "isCursorInToken ex_tokens 4"
    using inst[OF ex_cursor[where c = 4, symmetric]] t start by blast
  have out7: "\<not> isCursorInToken ex_tokens 7"
    using inst[OF ex_cursor[where c = 7, symmetric]] t after by blast
  have out4: "\<not> isCursorInToken ex_short_tokens 4"
    using inst1[OF ex_cursor[where c = 4, symmetric]] t1 one by blast
  have r5: "handleCompletion ex_env (ex_params 5) ex_cached = (Inr None, ex_cached)"
    using inst[OF ex_cursor[where c = 5, symmetric]] in5 by blast
  have r4: "handleCompletion ex_env (ex_params 4) ex_cached = (Inr None, ex_cached)"
    using inst[OF ex_cursor[where c = 4, symmetric]] in4 by blast
  have q7: "calls (snd (handleCompletion ex_env (ex_params 7) ex_cached)) =
      calls ex_cached @ [ComputeContentAssist ''MappingDoc'' (tokensBeforeCursor ex_tokens 7)]"
    using inst[OF ex_cursor[where c = 7, symmetric]] out7 by blast
  have q4: "calls (snd (handleCompletion ex_env (ex_params 4) ex_cached_short)) =
      calls ex_cached_short @
        [ComputeContentAssist ''MappingDoc'' (tokensBeforeCursor ex_short_tokens 4)]"
    using inst1[OF ex_cursor[where c = 4, symmetric]] out4 by blast
  show ?thesis
    using r5 r4 out7 out4 q7 q4 by (simp add: ex_prefix ex_short none)
qed

text \<open>
  The claim as it was stated fails at the start of a token: with the cursor at offset
  0, exactly at the start boundary of the first token, the handler takes the in-token
  return and the parser is not queried, although it would propose \<open>Mapping\<close> there.
\<close>

theorem cursor_at_token_start_counterexample:
  "offsetAt (ex_document ex_text) (position_of (ex_params 0)) = startOffset (ex_tokens ! 0) \<and>
   isCursorInToken ex_tokens 0 \<and>
   handleCompletion ex_env (ex_params 0) ex_cached = (Inr None, ex_cached) \<and>
   computeContentAssist ex_env ''MappingDoc'' (tokensBeforeCursor ex_tokens 0) =
     [\<lparr>nextTokenType = \<lparr>tokenName = ''Mapping''\<rparr>, ruleStack = [''MappingDoc'']\<rparr>]"
proof -
  have toks: "tokensForCompletion ex_env (ex_document ex_text)
      (td_uri (textDocument (ex_params 0))) ex_cached = (ex_tokens, ex_cached)"
    by (rule tokensForCompletion_cached[OF ex_cache(1)]) simp
  have "handleCompletion ex_env (ex_params 0) ex_cached = (Inr None, ex_cached)"
    using handleCompletion_with_document[OF ex_documents(1) toks]
    by (simp add: ex_cursor ex_in_token)
  moreover have "tokensBeforeCursor ex_tokens 0 = []"
    by (simp add: tokensBeforeCursor_def ex_index)
  moreover have "startOffset (ex_tokens ! 0) = 0"
    by (simp add: ex_tokens_def ex_token_def)
  ultimately show ?thesis
    by (simp add: ex_cursor ex_in_token ex_assist)
qed

subsection \<open>The completion item\<close>

text \<open>
  C3. When the handler has queried the parser, it returns exactly one item if some
  returned candidate has the next token type \<open>Mapping\<close>, and no result otherwise. No
  returned array has more than one item.
\<close>

theorem content_assist_yields_at_most_one_item:
  assumes run: "handleCompletion env params st = (res, st')"
  shows "(ComputeContentAssist rule prefix \<in> set (drop (length (calls st)) (calls st')) \<longrightarrow>
            (\<exists>doc. documents st (td_uri (textDocument params)) = Some doc \<and>
               res = Inr (if \<exists>c\<in>set (computeContentAssist env rule prefix).
                               tokenName (nextTokenType c) = ''Mapping''
                          then Some [basicSMS2MappingItem env doc
                                       (offsetAt doc (position_of params))]
                          else None))) \<and>
         (\<forall>items. res = Inr (Some items) \<longrightarrow> length items \<le> 1)"
proof (cases "documents st (td_uri (textDocument params))")
  case None
  from handleCompletion_no_document[OF None, of env] run
  have "res = Inl TypeError" "st' = st" by simp_all
  then show ?thesis by simp
next
  case (Some doc)
  obtain toks st1 where
    toks: "tokensForCompletion env doc (td_uri (textDocument params)) st = (toks, st1)"
    by (cases "tokensForCompletion env doc (td_uri (textDocument params)) st")
  note hc = handleCompletion_with_document[OF Some toks]
  from tokensForCompletion_calls[OF toks]
  have suffix: "drop (length (calls st)) (calls st1) = [] \<or>
      drop (length (calls st)) (calls st1) = [ParserParse (getText doc) None]"
    by auto
  have len: "length (calls st) \<le> length (calls st1)"
    using tokensForCompletion_calls[OF toks] by auto
  show ?thesis
  proof (cases "isCursorInToken toks (offsetAt doc (position_of params))")
    case True
    with hc run have "res = Inr None" "st' = st1" by simp_all
    with suffix show ?thesis by auto
  next
    case False
    let ?p = "tokensBeforeCursor toks (offsetAt doc (position_of params))"
    from False hc run have st': "calls st' = calls st1 @ [ComputeContentAssist ''MappingDoc'' ?p]"
      by (auto split: if_splits)
    have res: "res = Inr (if \<exists>c\<in>set (computeContentAssist env ''MappingDoc'' ?p).
                               tokenName (nextTokenType c) = ''Mapping''
                          then Some [basicSMS2MappingItem env doc
                                       (offsetAt doc (position_of params))]
                          else None)"
      using False hc run by (auto simp: list_ex_iff split: if_splits)
    have "drop (length (calls st)) (calls st') =
            drop (length (calls st)) (calls st1) @ [ComputeContentAssist ''MappingDoc'' ?p]"
      using st' len by simp
    with suffix have mem: "ComputeContentAssist rule prefix \<in> set (drop (length (calls st)) (calls st'))
        \<longrightarrow> rule = ''MappingDoc'' \<and> prefix = ?p"
      by auto
    show ?thesis
    proof (intro conjI impI allI)
      assume "ComputeContentAssist rule prefix \<in> set (drop (length (calls st)) (calls st'))"
      with mem have "rule = ''MappingDoc''" "prefix = ?p" by simp_all
      with res Some show "\<exists>doc. documents st (td_uri (textDocument params)) = Some doc \<and>
               res = Inr (if \<exists>c\<in>set (computeContentAssist env rule prefix).
                               tokenName (nextTokenType c) = ''Mapping''
                          then Some [basicSMS2MappingItem env doc
                                       (offsetAt doc (position_of params))]
                          else None)"
        by simp
    next
      fix items assume "res = Inr (Some items)"
      with res show "length items \<le> 1" by (auto split: if_splits)
    qed
  qed
qed


theorem content_assist_yields_at_most_one_item_witness:
  "ComputeContentAssist ''MappingDoc'' [] \<in>
     set (drop (length (calls ex_cached))
            (calls (snd (handleCompletion ex_env (ex_params 3) ex_cached)))) \<and>
   fst (handleCompletion ex_env (ex_params 3) ex_cached) =
     Inr (Some [basicSMS2MappingItem ex_env (ex_document ex_text) 3]) \<and>
   ComputeContentAssist ''MappingDoc'' [ex_token 0 2] \<in>
     set (drop (length (calls ex_cached))
            (calls (snd (handleCompletion ex_env (ex_params 7) ex_cached)))) \<and>
   fst (handleCompletion ex_env (ex_params 7) ex_cached) = Inr None"
proof -
  have toks: "tokensForCompletion ex_env (ex_document ex_text)
      (td_uri (textDocument (ex_params c))) ex_cached = (ex_tokens, ex_cached)" for c
    by (rule tokensForCompletion_cached[OF ex_cache(1)]) simp
  have none: "calls ex_cached = []"
    by (simp add: ex_cached_def ex_server_def)
  have q3: "ComputeContentAssist ''MappingDoc'' [] \<in>
     set (drop (length (calls ex_cached))
            (calls (snd (handleCompletion ex_env (ex_params 3) ex_cached))))"
    using handleCompletion_with_document[OF ex_documents(1) toks, of 3]
    by (simp add: ex_cursor ex_in_token ex_prefix ex_assist none)
  have q7: "ComputeContentAssist ''MappingDoc'' [ex_token 0 2] \<in>
     set (drop (length (calls ex_cached))
            (calls (snd (handleCompletion ex_env (ex_params 7) ex_cached))))"
    using handleCompletion_with_document[OF ex_documents(1) toks, of 7]
    by (simp add: ex_cursor ex_in_token ex_prefix ex_assist none)
  have run: "handleCompletion ex_env (ex_params c) ex_cached =
      (fst (handleCompletion ex_env (ex_params c) ex_cached),
       snd (handleCompletion ex_env (ex_params c) ex_cached))" for c
    by simp
  show ?thesis
    using q3 q7
      content_assist_yields_at_most_one_item[OF run, of "''MappingDoc''" "[]" 3]
      content_assist_yields_at_most_one_item[OF run, of "''MappingDoc''" "[ex_token 0 2]" 7]
    by (simp add: ex_documents ex_cursor ex_assist)
qed

text \<open>
  C4. Every item the handler returns carries a text edit whose range starts and ends at
  the same position, the one the document gives for \<open>cursorOffset - 1\<close>; the edit
  inserts the snippet text there and replaces nothing.
\<close>

theorem completion_edit_is_zero_width:
  assumes run: "handleCompletion env params st = (Inr (Some items), st')"
    and doc: "documents st (td_uri (textDocument params)) = Some doc"
  shows "\<forall>item\<in>set items.
           range_start (edit_range (textEdit item)) = range_end (edit_range (textEdit item)) \<and>
           range_start (edit_range (textEdit item)) =
             positionAt doc (offsetAt doc (position_of params) - 1) \<and>
           newText (textEdit item) = basicSMS2Mapping env \<and>
           insertTextFormat item = Snippet"
proof -
  obtain toks st1 where
    toks: "tokensForCompletion env doc (td_uri (textDocument params)) st = (toks, st1)"
    by (cases "tokensForCompletion env doc (td_uri (textDocument params)) st")
  from handleCompletion_with_document[OF doc toks] run
  have "items = [basicSMS2MappingItem env doc (offsetAt doc (position_of params))]"
    by (auto split: if_splits)
  then show ?thesis by (simp add: basicSMS2MappingItem_def)
qed

theorem completion_edit_is_zero_width_witness:
  "fst (handleCompletion ex_env (ex_params 3) ex_cached) =
     Inr (Some [basicSMS2MappingItem ex_env (ex_document ex_text) 3]) \<and>
   range_start (edit_range (textEdit (basicSMS2MappingItem ex_env (ex_document ex_text) 3))) =
     \<lparr>line = 0, character = 2\<rparr> \<and>
   range_end (edit_range (textEdit (basicSMS2MappingItem ex_env (ex_document ex_text) 3))) =
     \<lparr>line = 0, character = 2\<rparr> \<and>
   newText (textEdit (basicSMS2MappingItem ex_env (ex_document ex_text) 3)) = ''MAPPING'' \<and>
   insertTextFormat (basicSMS2MappingItem ex_env (ex_document ex_text) 3) = Snippet"
proof -
  let ?item = "basicSMS2MappingItem ex_env (ex_document ex_text) 3"
  have toks: "tokensForCompletion ex_env (ex_document ex_text)
      (td_uri (textDocument (ex_params 3))) ex_cached = (ex_tokens, ex_cached)"
    by (rule tokensForCompletion_cached[OF ex_cache(1)]) simp
  have run: "handleCompletion ex_env (ex_params 3) ex_cached =
      (Inr (Some [?item]),
       ex_cached\<lparr>calls := calls ex_cached @ [ComputeContentAssist ''MappingDoc'' []]\<rparr>)"
    using handleCompletion_with_document[OF ex_documents(1) toks]
    by (simp add: ex_cursor ex_in_token ex_prefix ex_assist)
  have pos: "positionAt (ex_document ex_text) 2 = \<lparr>line = 0, character = 2\<rparr>"
    by (simp add: ex_document_def)
  have snip: "basicSMS2Mapping ex_env = ''MAPPING''"
    by (simp add: ex_env_def)
  from completion_edit_is_zero_width[OF run ex_documents(1)]
  have "range_start (edit_range (textEdit ?item)) = range_end (edit_range (textEdit ?item)) \<and>
        range_start (edit_range (textEdit ?item)) = \<lparr>line = 0, character = 2\<rparr> \<and>
        newText (textEdit ?item) = ''MAPPING'' \<and> insertTextFormat ?item = Snippet"
    by (auto simp add: ex_cursor pos snip)
  then have "range_start (edit_range (textEdit ?item)) = \<lparr>line = 0, character = 2\<rparr> \<and>
        range_end (edit_range (textEdit ?item)) = \<lparr>line = 0, character = 2\<rparr> \<and>
        newText (textEdit ?item) = ''MAPPING'' \<and> insertTextFormat ?item = Snippet"
    by metis
  moreover have "fst (handleCompletion ex_env (ex_params 3) ex_cached) = Inr (Some [?item])"
    by (simp only: run fst_conv)
  ultimately show ?thesis by (simp only: simp_thms)
qed

subsection \<open>The parse state cache\<close>

text \<open>
  C5. With an open document: when the cache holds a parse state with tokens for the
  URI, the handler works on those tokens, leaves the cache as it is and makes no call
  of the parser's \<open>parse\<close>; when the cache holds no tokens for the URI, the handler
  calls \<open>parse\<close> exactly once, on the document text, works on the tokens of that
  parse and stores its tree and tokens for the URI.
\<close>

theorem completion_reads_or_fills_cache:
  assumes doc: "documents st (td_uri (textDocument params)) = Some doc"
    and C: "C = offsetAt doc (position_of params)"
    and r: "r = parse env (getText doc) None"
  shows "(parseStates st (td_uri (textDocument params)) = Some s \<and> ps_tokens s = Some toks \<longrightarrow>
            parseStates (snd (handleCompletion env params st)) = parseStates st \<and>
            calls (snd (handleCompletion env params st)) =
              calls st @ (if isCursorInToken toks C then []
                          else [ComputeContentAssist ''MappingDoc'' (tokensBeforeCursor toks C)]) \<and>
            fst (handleCompletion env params st) =
              Inr (if isCursorInToken toks C then None
                   else if list_ex (\<lambda>completion. tokenName (nextTokenType completion) = ''Mapping'')
                             (computeContentAssist env ''MappingDoc'' (tokensBeforeCursor toks C))
                        then Some [basicSMS2MappingItem env doc C] else None)) \<and>
         ((\<forall>s'. parseStates st (td_uri (textDocument params)) = Some s' \<longrightarrow> ps_tokens s' = None) \<longrightarrow>
            parseStates (snd (handleCompletion env params st)) =
              (parseStates st)(td_uri (textDocument params) \<mapsto>
                 \<lparr>ps_cst = Some (out_cst r), ps_tokens = Some (out_input r)\<rparr>) \<and>
            calls (snd (handleCompletion env params st)) =
              calls st @ [ParserParse (getText doc) None] @
                (if isCursorInToken (out_input r) C then []
                 else [ComputeContentAssist ''MappingDoc'' (tokensBeforeCursor (out_input r) C)]) \<and>
            fst (handleCompletion env params st) =
              Inr (if isCursorInToken (out_input r) C then None
                   else if list_ex (\<lambda>completion. tokenName (nextTokenType completion) = ''Mapping'')
                             (computeContentAssist env ''MappingDoc''
                                (tokensBeforeCursor (out_input r) C))
                        then Some [basicSMS2MappingItem env doc C] else None))"
proof (intro conjI impI)
  assume h: "parseStates st (td_uri (textDocument params)) = Some s \<and> ps_tokens s = Some toks"
  then have t: "tokensForCompletion env doc (td_uri (textDocument params)) st = (toks, st)"
    by (simp add: tokensForCompletion_cached)
  note hc = handleCompletion_with_document[OF doc t, folded C]
  show "parseStates (snd (handleCompletion env params st)) = parseStates st"
    unfolding hc by simp
  show "calls (snd (handleCompletion env params st)) =
              calls st @ (if isCursorInToken toks C then []
                          else [ComputeContentAssist ''MappingDoc'' (tokensBeforeCursor toks C)])"
    unfolding hc by simp
  show "fst (handleCompletion env params st) =
              Inr (if isCursorInToken toks C then None
                   else if list_ex (\<lambda>completion. tokenName (nextTokenType completion) = ''Mapping'')
                             (computeContentAssist env ''MappingDoc'' (tokensBeforeCursor toks C))
                        then Some [basicSMS2MappingItem env doc C] else None)"
    unfolding hc by simp
next
  assume h: "\<forall>s'. parseStates st (td_uri (textDocument params)) = Some s' \<longrightarrow> ps_tokens s' = None"
  note t = tokensForCompletion_fresh[OF h, of env doc, folded r]
  note hc = handleCompletion_with_document[OF doc t, folded C]
  show "parseStates (snd (handleCompletion env params st)) =
              (parseStates st)(td_uri (textDocument params) \<mapsto>
                 \<lparr>ps_cst = Some (out_cst r), ps_tokens = Some (out_input r)\<rparr>)"
    unfolding hc by simp
  show "calls (snd (handleCompletion env params st)) =
              calls st @ [ParserParse (getText doc) None] @
                (if isCursorInToken (out_input r) C then []
                 else [ComputeContentAssist ''MappingDoc'' (tokensBeforeCursor (out_input r) C)])"
    unfolding hc by simp
  show "fst (handleCompletion env params st) =
              Inr (if isCursorInToken (out_input r) C then None
                   else if list_ex (\<lambda>completion. tokenName (nextTokenType completion) = ''Mapping'')
                             (computeContentAssist env ''MappingDoc''
                                (tokensBeforeCursor (out_input r) C))
                        then Some [basicSMS2MappingItem env doc C] else None)"
    unfolding hc by simp
qed


theorem completion_reads_or_fills_cache_witness:
  "calls (snd (handleCompletion ex_env (ex_params 3) ex_cached)) =
     [ComputeContentAssist ''MappingDoc'' []] \<and>
   parseStates (snd (handleCompletion ex_env (ex_params 3) ex_cached)) = parseStates ex_cached \<and>
   calls (snd (handleCompletion ex_env (ex_params 3) ex_uncached)) =
     [ParserParse ex_text None, ComputeContentAssist ''MappingDoc'' []] \<and>
   parseStates (snd (handleCompletion ex_env (ex_params 3) ex_uncached)) ex_uri =
     Some \<lparr>ps_cst = Some (), ps_tokens = Some [ex_token 0 2, ex_token 4 6]\<rparr>"
proof -
  have hit: "parseStates ex_cached (td_uri (textDocument (ex_params 3))) =
        Some \<lparr>ps_cst = Some (), ps_tokens = Some ex_tokens\<rparr> \<and>
      ps_tokens \<lparr>ps_cst = Some (), ps_tokens = Some ex_tokens\<rparr> = Some ex_tokens"
    by (simp add: ex_cache)
  have miss: "\<forall>s'. parseStates ex_uncached (td_uri (textDocument (ex_params 3))) = Some s'
      \<longrightarrow> ps_tokens s' = None"
    by (simp add: ex_cache)
  have parsed: "out_input (parse ex_env content None) = take 2 ex_tokens" for content
    by (simp add: ex_env_def)
  have base: "calls ex_cached = []" "calls ex_uncached = []"
    "getText (ex_document ex_text) = ex_text"
    "td_uri (textDocument (ex_params 3)) = ex_uri"
    "take 2 ex_tokens = [ex_token 0 2, ex_token 4 6]"
    by (simp_all add: ex_cached_def ex_uncached_def ex_server_def ex_document_def
        ex_params_def ex_tokens_def)
  have cached: "parseStates (snd (handleCompletion ex_env (ex_params 3) ex_cached)) =
        parseStates ex_cached \<and>
      calls (snd (handleCompletion ex_env (ex_params 3) ex_cached)) =
        [ComputeContentAssist ''MappingDoc'' []]"
    using hit
      completion_reads_or_fills_cache[OF ex_documents(1)[of 3]
        ex_cursor[where c = 3 and content = ex_text, symmetric] refl,
        where env = ex_env and toks = ex_tokens
          and s = "\<lparr>ps_cst = Some (), ps_tokens = Some ex_tokens\<rparr>"]
    by (simp add: ex_in_token ex_prefix base)
  have fresh: "parseStates (snd (handleCompletion ex_env (ex_params 3) ex_uncached)) =
        (parseStates ex_uncached)(ex_uri \<mapsto>
           \<lparr>ps_cst = Some (), ps_tokens = Some [ex_token 0 2, ex_token 4 6]\<rparr>) \<and>
      calls (snd (handleCompletion ex_env (ex_params 3) ex_uncached)) =
        [ParserParse ex_text None, ComputeContentAssist ''MappingDoc'' []]"
    using miss
      completion_reads_or_fills_cache[OF ex_documents(2)[of 3]
        ex_cursor[where c = 3 and content = ex_text, symmetric] refl,
        where env = ex_env]
    by (simp add: parsed ex_in_token ex_prefix base(2-4)) (simp add: base(5))
  from cached fresh show ?thesis by simp
qed

subsection \<open>A request for a document that is not open\<close>

text \<open>
  C9, as amended. For a URI without an open document the handler throws a
  \<open>TypeError\<close> where it calls \<open>offsetAt\<close> on the missing document: it returns no
  candidates, and the server is as it was, with no call made to the parser and nothing
  stored in the cache.
\<close>

theorem missing_document_raises_type_error:
  assumes "documents st (td_uri (textDocument params)) = None"
  shows "handleCompletion env params st = (Inl TypeError, st)"
  using assms by (simp add: handleCompletion_def)

theorem missing_document_raises_type_error_witness:
  "handleCompletion ex_env (ex_params 3) (ex_server Map.empty Map.empty) =
     (Inl TypeError, ex_server Map.empty Map.empty)"
  by (rule missing_document_raises_type_error[OF ex_documents(4)])

text \<open>
  The claim as it was stated fails: no document is open, and the handler throws.
\<close>

theorem missing_document_counterexample:
  "documents (ex_server Map.empty Map.empty) (td_uri (textDocument (ex_params 0))) = None \<and>
   fst (handleCompletion ex_env (ex_params 0) (ex_server Map.empty Map.empty)) = Inl TypeError"
  using handleCompletion_no_document[OF ex_documents(4), of ex_env 0]
  by (simp add: ex_documents)

subsection \<open>The anchor of the edit at the start of the document\<close>

text \<open>
  C10. When the handler returns an item for a cursor offset below 1, the anchor of its
  text edit is the position the document gives for \<open>cursorOffset - 1\<close>, a negative
  offset (\<open>-1\<close> for the cursor at offset 0): the handler passes the difference on as it is.
\<close>

theorem completion_anchor_offset_can_be_negative:
  assumes run: "handleCompletion env params st = (Inr (Some items), st')"
    and doc: "documents st (td_uri (textDocument params)) = Some doc"
    and low: "offsetAt doc (position_of params) < 1"
  shows "items \<noteq> [] \<and>
         (\<forall>item\<in>set items.
            range_start (edit_range (textEdit item)) =
              positionAt doc (offsetAt doc (position_of params) - 1) \<and>
            range_end (edit_range (textEdit item)) =
              positionAt doc (offsetAt doc (position_of params) - 1) \<and>
            offsetAt doc (position_of params) - 1 < 0 \<and>
            (offsetAt doc (position_of params) = 0 \<longrightarrow>
               range_start (edit_range (textEdit item)) = positionAt doc (- 1)))"
proof -
  obtain toks st1 where
    toks: "tokensForCompletion env doc (td_uri (textDocument params)) st = (toks, st1)"
    by (cases "tokensForCompletion env doc (td_uri (textDocument params)) st")
  from handleCompletion_with_document[OF doc toks] run
  have "items = [basicSMS2MappingItem env doc (offsetAt doc (position_of params))]"
    by (auto split: if_splits)
  with low show ?thesis by (auto simp: basicSMS2MappingItem_def)
qed

theorem completion_anchor_offset_can_be_negative_witness:
  "fst (handleCompletion ex_env (ex_params 0) ex_blank) =
     Inr (Some [basicSMS2MappingItem ex_env (ex_document []) 0]) \<and>
   range_start (edit_range (textEdit (basicSMS2MappingItem ex_env (ex_document []) 0))) =
     \<lparr>line = 0, character = - 1\<rparr>"
proof -
  let ?item = "basicSMS2MappingItem ex_env (ex_document []) 0"
  have toks: "tokensForCompletion ex_env (ex_document [])
      (td_uri (textDocument (ex_params 0))) ex_blank = ([], ex_blank)"
    by (rule tokensForCompletion_cached[OF ex_cache(2)]) simp
  have run: "handleCompletion ex_env (ex_params 0) ex_blank =
      (Inr (Some [?item]),
       ex_blank\<lparr>calls := calls ex_blank @ [ComputeContentAssist ''MappingDoc'' []]\<rparr>)"
    using handleCompletion_with_document[OF ex_documents(3) toks]
    by (simp add: ex_cursor ex_in_token ex_prefix ex_assist)
  have low: "offsetAt (ex_document []) (position_of (ex_params 0)) < 1"
    by (simp add: ex_cursor)
  have pos: "positionAt (ex_document []) (- 1) = \<lparr>line = 0, character = - 1\<rparr>"
    by (simp add: ex_document_def)
  from completion_anchor_offset_can_be_negative[OF run ex_documents(3) low]
  have "range_start (edit_range (textEdit ?item)) = \<lparr>line = 0, character = - 1\<rparr>"
    by (auto simp add: ex_cursor pos)
  moreover have "fst (handleCompletion ex_env (ex_params 0) ex_blank) = Inr (Some [?item])"
    by (simp only: run fst_conv)
  ultimately show ?thesis by (simp only: simp_thms)
qed

end
